theory Spec2Isabelle
  imports Complex_Main "HOL-Library.Log_Nat"
begin

section \<open>JavaScript values\<close>

text \<open>
  A value of TypeScript type \<open>T | undefined\<close> is an \<open>'a undef\<close>, a value of type
  \<open>T | null\<close> an \<open>'a nullable\<close>, so \<open>T | null | undefined\<close> is \<open>'a nullable undef\<close>.
  Reading a property that an object does not have yields \<open>undefined\<close>; where the code only
  reads a property, an absent property and one holding \<open>undefined\<close> are the same value
  \<open>Undefined\<close>. Object spread tells them apart (it copies a property that holds
  \<open>undefined\<close>), so the argument of \<open>updateProduct\<close> keeps the difference: \<open>'a property\<close>.

  The numbers the repository receives (identifiers, ratings, quantities) are integers,
  and integer arithmetic is exact: a binary64 number holds every integer up to \<open>2\<^sup>5\<^sup>3\<close>.
  \<open>NaN\<close> appears only as the result of \<open>undefined + n\<close>. The one division is modelled
  with its rounding.
\<close>

datatype 'a undef = Undefined | Def 'a

datatype 'a nullable = Null | NotNull 'a

datatype 'a property = Absent | Present 'a

datatype jsnum = NaN | Num int

text \<open>Property read \<open>o.f\<close> on an object that may lack \<open>f\<close>.\<close>

fun read_prop :: "'a undef property \<Rightarrow> 'a undef" where
  "read_prop Absent = Undefined"
| "read_prop (Present v) = v"

text \<open>The field \<open>f\<close> of \<open>{...a, ...b}\<close>, where \<open>a\<close> has \<open>f\<close>.\<close>

fun spread_over :: "'a \<Rightarrow> 'a property \<Rightarrow> 'a" where
  "spread_over old Absent = old"
| "spread_over old (Present v) = v"

text \<open>\<open>v || d\<close> for a number, a string and a nullable string: \<open>0\<close>, \<open>""\<close>, \<open>null\<close> and
  \<open>undefined\<close> are falsy.\<close>

fun num_or :: "int undef \<Rightarrow> int \<Rightarrow> int" where
  "num_or Undefined d = d"
| "num_or (Def n) d = (if n = 0 then d else n)"

fun str_or :: "string nullable undef \<Rightarrow> string \<Rightarrow> string" where
  "str_or Undefined d = d"
| "str_or (Def Null) d = d"
| "str_or (Def (NotNull s)) d = (if s = [] then d else s)"

fun str_or_null :: "string nullable undef \<Rightarrow> string nullable" where
  "str_or_null Undefined = Null"
| "str_or_null (Def Null) = Null"
| "str_or_null (Def (NotNull s)) = (if s = [] then Null else NotNull s)"

text \<open>\<open>a + b\<close> where \<open>a\<close> is a stored quantity and \<open>b\<close> a number.\<close>

fun js_add :: "jsnum undef \<Rightarrow> int \<Rightarrow> jsnum" where
  "js_add Undefined b = NaN"
| "js_add (Def NaN) b = NaN"
| "js_add (Def (Num a)) b = Num (a + b)"

section \<open>The JavaScript \<open>Map\<close>\<close>

text \<open>
  A \<open>Map\<close> iterates in insertion order: \<open>set\<close> on a key that is present replaces the
  value in place, on a new key it appends. It is modelled as an association list.
\<close>

type_synonym ('k, 'v) jsmap = "('k \<times> 'v) list"

definition map_get :: "('k, 'v) jsmap \<Rightarrow> 'k \<Rightarrow> 'v option" where
  "map_get m k = map_of m k"

fun map_set :: "'k \<Rightarrow> 'v \<Rightarrow> ('k, 'v) jsmap \<Rightarrow> ('k, 'v) jsmap" where
  "map_set k v [] = [(k, v)]"
| "map_set k v (e # es) = (if fst e = k then (k, v) # es else e # map_set k v es)"

definition map_has :: "('k, 'v) jsmap \<Rightarrow> 'k \<Rightarrow> bool" where
  "map_has m k = (k \<in> fst ` set m)"

definition map_delete :: "'k \<Rightarrow> ('k, 'v) jsmap \<Rightarrow> ('k, 'v) jsmap" where
  "map_delete k m = filter (\<lambda>e. fst e \<noteq> k) m"

definition map_values :: "('k, 'v) jsmap \<Rightarrow> 'v list" where
  "map_values m = map snd m"

text \<open>\<open>xs[0]\<close>, which is \<open>undefined\<close> on an empty array.\<close>

fun first_elem :: "'a list \<Rightarrow> 'a option" where
  "first_elem [] = None"
| "first_elem (x # xs) = Some x"

section \<open>Entities\<close>

record product =
  p_id :: int
  p_name :: "string undef"
  p_description :: "string undef"
  p_price :: "string undef"
  p_image :: "string undef"
  p_rating :: "string undef"
  p_reviewCount :: int
  p_badge :: "string nullable"
  p_sizes :: "string list undef"
  p_featured :: bool

record insertProduct =
  ip_name :: string
  ip_description :: string
  ip_price :: string
  ip_image :: string
  ip_rating :: string
  ip_reviewCount :: "int undef"
  ip_badge :: "string nullable undef"
  ip_sizes :: "string list"
  ip_featured :: "bool undef"

text \<open>\<open>Partial<InsertProduct>\<close>: every property may be absent, or present and \<open>undefined\<close>.\<close>

record updateData =
  ud_name :: "string undef property"
  ud_description :: "string undef property"
  ud_price :: "string undef property"
  ud_image :: "string undef property"
  ud_rating :: "string undef property"
  ud_reviewCount :: "int undef property"
  ud_badge :: "string nullable undef property"
  ud_sizes :: "string list undef property"
  ud_featured :: "bool undef property"

record user =
  u_id :: int
  username :: string
  password :: string
  isAdmin :: bool

record insertUser =
  iu_username :: string
  iu_password :: string

record review =
  r_id :: int
  r_name :: string
  r_rating :: int
  comment :: string
  approved :: bool
  createdAt :: string

record insertReview =
  ir_name :: string
  ir_rating :: int
  ir_comment :: "string nullable undef"

record cartItem =
  c_id :: int
  userId :: "int nullable undef"
  productId :: int
  c_size :: string
  quantity :: "jsnum undef"

record insertCartItem =
  ic_userId :: "int nullable undef"
  ic_productId :: int
  ic_size :: string
  ic_quantity :: "int undef"

section \<open>The repository \<open>MemStorage\<close>\<close>

record storage =
  users :: "(int, user) jsmap"
  products :: "(int, product) jsmap"
  cart :: "(int, cartItem) jsmap"
  reviews :: "(int, review) jsmap"
  currentUserId :: int
  currentProductId :: int
  currentCartItemId :: int
  currentReviewId :: int

subsection \<open>Products\<close>

definition getAllProducts :: "storage \<Rightarrow> product list" where
  "getAllProducts s = map_values (products s)"

definition getFeaturedProducts :: "storage \<Rightarrow> product list" where
  "getFeaturedProducts s = filter p_featured (map_values (products s))"

definition getProduct :: "storage \<Rightarrow> int \<Rightarrow> product option" where
  "getProduct s i = map_get (products s) i"

definition createProduct :: "insertProduct \<Rightarrow> storage \<Rightarrow> product \<times> storage" where
  "createProduct ip s =
     (let i = currentProductId s;
          p = \<lparr> p_id = i,
                p_name = Def (ip_name ip),
                p_description = Def (ip_description ip),
                p_price = Def (ip_price ip),
                p_image = Def (ip_image ip),
                p_rating = Def (ip_rating ip),
                p_reviewCount = num_or (ip_reviewCount ip) 0,
                p_badge = str_or_null (ip_badge ip),
                p_sizes = Def (ip_sizes ip),
                p_featured = (case ip_featured ip of Undefined \<Rightarrow> True | Def b \<Rightarrow> b) \<rparr>
      in (p, s\<lparr> currentProductId := i + 1, products := map_set i p (products s) \<rparr>))"

text \<open>The merged object of \<open>updateProduct\<close>: the spread of the product, the spread of the
  update over it, then the three fields written after the spreads.\<close>

definition merge_product :: "product \<Rightarrow> updateData \<Rightarrow> product" where
  "merge_product p d =
     \<lparr> p_id = p_id p,
       p_name = spread_over (p_name p) (ud_name d),
       p_description = spread_over (p_description p) (ud_description d),
       p_price = spread_over (p_price p) (ud_price d),
       p_image = spread_over (p_image p) (ud_image d),
       p_rating = spread_over (p_rating p) (ud_rating d),
       p_reviewCount = (case read_prop (ud_reviewCount d) of
                          Undefined \<Rightarrow> p_reviewCount p | Def n \<Rightarrow> n),
       p_badge = (case read_prop (ud_badge d) of
                    Undefined \<Rightarrow> p_badge p | Def b \<Rightarrow> b),
       p_sizes = spread_over (p_sizes p) (ud_sizes d),
       p_featured = (case read_prop (ud_featured d) of
                       Undefined \<Rightarrow> p_featured p | Def b \<Rightarrow> b) \<rparr>"

definition updateProduct :: "int \<Rightarrow> updateData \<Rightarrow> storage \<Rightarrow> product option \<times> storage" where
  "updateProduct i d s =
     (case map_get (products s) i of
        None \<Rightarrow> (None, s)
      | Some p \<Rightarrow>
          (let updatedProduct = merge_product p d
           in (Some updatedProduct, s\<lparr> products := map_set i updatedProduct (products s) \<rparr>)))"

subsection \<open>Users\<close>

definition getUser :: "storage \<Rightarrow> int \<Rightarrow> user option" where
  "getUser s i = map_get (users s) i"

definition getUserByUsername :: "storage \<Rightarrow> string \<Rightarrow> user option" where
  "getUserByUsername s n = find (\<lambda>u. username u = n) (map_values (users s))"

definition createUser :: "insertUser \<Rightarrow> storage \<Rightarrow> user \<times> storage" where
  "createUser iu s =
     (let i = currentUserId s;
          u = \<lparr> u_id = i, username = iu_username iu, password = iu_password iu,
                isAdmin = False \<rparr>
      in (u, s\<lparr> currentUserId := i + 1, users := map_set i u (users s) \<rparr>))"

definition verifyAdmin :: "storage \<Rightarrow> string \<Rightarrow> string \<Rightarrow> bool" where
  "verifyAdmin s n pw =
     (case getUserByUsername s n of
        None \<Rightarrow> False
      | Some u \<Rightarrow> password u = pw \<and> isAdmin u)"


subsection \<open>Numbers: the quotient of two integers and \<open>toFixed(1)\<close>\<close>

text \<open>
  A JavaScript number is a binary64 value; its exact value is a rational. The quotient
  \<open>a / b\<close> of two integers is the exact quotient rounded to the nearest number with a
  53 bit significand, ties to even. \<open>exponent2 a b\<close> is the binary exponent of the
  exact quotient for positive \<open>a\<close> and \<open>b\<close>. The exponent range of binary64 is not
  modelled (quotients of integers below \<open>2 ^ 1000\<close> stay inside it), nor is a divisor
  \<open>0\<close>: the only division of the repository has a positive divisor.
\<close>

definition round_half_even :: "rat \<Rightarrow> int" where
  "round_half_even y =
     (let f = \<lfloor>y\<rfloor>; r = y - of_int f
      in if r < 1 / 2 then f else if 1 / 2 < r then f + 1
         else if even f then f else f + 1)"

definition exponent2 :: "int \<Rightarrow> int \<Rightarrow> int" where
  "exponent2 a b =
     (let k = bitlen a - bitlen b
      in if (of_int b :: rat) * 2 powi k \<le> of_int a then k else k - 1)"

definition js_div :: "int \<Rightarrow> int \<Rightarrow> rat" where
  "js_div a b =
     (if a = 0 then 0
      else let u = 2 powi (exponent2 \<bar>a\<bar> b - 52)
           in of_int (sgn a) * of_int (round_half_even (of_int \<bar>a\<bar> / of_int b / u)) * u)"

definition digit :: "nat \<Rightarrow> char" where
  "digit d = ''0123456789'' ! d"

function show_nat :: "nat \<Rightarrow> string" where
  "show_nat n = (if n < 10 then [digit n] else show_nat (n div 10) @ [digit (n mod 10)])"
  by pat_completeness auto
termination
  by (relation "measure (\<lambda>n. n)") auto

declare show_nat.simps [simp del]

text \<open>The decimal notation of \<open>n / 10\<close> with one fraction digit, for \<open>n \<ge> 0\<close>.\<close>

definition show_tenths :: "int \<Rightarrow> string" where
  "show_tenths n = show_nat (nat (n div 10)) @ ''.'' @ show_nat (nat (n mod 10))"

text \<open>
  \<open>x.toFixed(1)\<close> (ECMAScript, Number.prototype.toFixed, for \<open>x < 10 ^ 21\<close>): a negative
  \<open>x\<close> gives \<open>"-"\<close> and the digits of \<open>- x\<close>; the digits are those of the integer
  \<open>n\<close> for which \<open>n / 10 - x\<close> is closest to zero, the larger \<open>n\<close> if there are two,
  with the point before the last digit.
\<close>

definition toFixed1 :: "rat \<Rightarrow> string" where
  "toFixed1 x =
     (if x < 0 then CHR ''-'' # show_tenths \<lfloor>- x * 10 + 1 / 2\<rfloor>
      else show_tenths \<lfloor>x * 10 + 1 / 2\<rfloor>)"

subsection \<open>Reviews\<close>

definition getReview :: "storage \<Rightarrow> int \<Rightarrow> review option" where
  "getReview s i = map_get (reviews s) i"

text \<open>The object \<open>{ rating: averageRating, reviewCount: n }\<close>.\<close>

definition no_update :: updateData where
  "no_update =
     \<lparr> ud_name = Absent, ud_description = Absent, ud_price = Absent, ud_image = Absent,
       ud_rating = Absent, ud_reviewCount = Absent, ud_badge = Absent, ud_sizes = Absent,
       ud_featured = Absent \<rparr>"

definition rating_update :: "string \<Rightarrow> int \<Rightarrow> updateData" where
  "rating_update averageRating n =
     no_update\<lparr> ud_rating := Present (Def averageRating), ud_reviewCount := Present (Def n) \<rparr>"

definition updateProductRatings :: "storage \<Rightarrow> storage" where
  "updateProductRatings s =
     (case first_elem (map_values (products s)) of
        None \<Rightarrow> s
      | Some product \<Rightarrow>
          (let approvedReviews = filter approved (map_values (reviews s))
           in if length approvedReviews = 0 then s
              else
                (let totalRating = foldl (\<lambda>sum review. sum + r_rating review) 0 approvedReviews;
                     averageRating = toFixed1 (js_div totalRating (int (length approvedReviews)))
                 in snd (updateProduct (p_id product)
                           (rating_update averageRating (int (length approvedReviews))) s))))"

text \<open>The time stamp \<open>new Date().toISOString()\<close> is the argument \<open>now\<close>.\<close>

definition createReview :: "insertReview \<Rightarrow> string \<Rightarrow> storage \<Rightarrow> review \<times> storage" where
  "createReview ir now s =
     (let i = currentReviewId s;
          r = \<lparr> r_id = i, r_name = ir_name ir, r_rating = ir_rating ir,
                comment = str_or (ir_comment ir) [], approved = True, createdAt = now \<rparr>
      in (r, updateProductRatings
               (s\<lparr> currentReviewId := i + 1, reviews := map_set i r (reviews s) \<rparr>)))"

definition updateReview :: "int \<Rightarrow> bool \<Rightarrow> storage \<Rightarrow> review option \<times> storage" where
  "updateReview i b s =
     (case map_get (reviews s) i of
        None \<Rightarrow> (None, s)
      | Some r \<Rightarrow>
          (let updatedReview = r\<lparr> approved := b \<rparr>
           in (Some updatedReview,
               updateProductRatings (s\<lparr> reviews := map_set i updatedReview (reviews s) \<rparr>))))"

definition deleteReview :: "int \<Rightarrow> storage \<Rightarrow> bool \<times> storage" where
  "deleteReview i s =
     (let deleted = map_has (reviews s) i;
          s1 = s\<lparr> reviews := map_delete i (reviews s) \<rparr>
      in (deleted, if deleted then updateProductRatings s1 else s1))"

subsection \<open>Cart\<close>

text \<open>\<open>if (userId)\<close>: a number is truthy unless it is \<open>0\<close>.\<close>

fun truthy_id :: "int undef \<Rightarrow> bool" where
  "truthy_id Undefined = False"
| "truthy_id (Def n) = (n \<noteq> 0)"

text \<open>The filter predicate \<open>item.userId === userId\<close> of both branches.\<close>

definition owner_filter :: "int undef \<Rightarrow> cartItem \<Rightarrow> bool" where
  "owner_filter uid item =
     (if truthy_id uid
      then (case uid of Def n \<Rightarrow> userId item = Def (NotNull n) | Undefined \<Rightarrow> False)
      else userId item = Undefined)"

definition getCartItems :: "int undef \<Rightarrow> storage \<Rightarrow> cartItem list" where
  "getCartItems uid s = filter (owner_filter uid) (map_values (cart s))"

definition updateCartItemQuantity :: "int \<Rightarrow> jsnum \<Rightarrow> storage \<Rightarrow> cartItem option \<times> storage" where
  "updateCartItemQuantity i q s =
     (case map_get (cart s) i of
        None \<Rightarrow> (None, s)
      | Some item \<Rightarrow>
          (let updatedItem = item\<lparr> quantity := Def q \<rparr>
           in (Some updatedItem, s\<lparr> cart := map_set i updatedItem (cart s) \<rparr>)))"

definition same_line :: "insertCartItem \<Rightarrow> cartItem \<Rightarrow> bool" where
  "same_line ic item =
     (productId item = ic_productId ic \<and> c_size item = ic_size ic \<and> userId item = ic_userId ic)"

definition addToCart :: "insertCartItem \<Rightarrow> storage \<Rightarrow> cartItem option \<times> storage" where
  "addToCart ic s =
     (case find (same_line ic) (map_values (cart s)) of
        Some existingItem \<Rightarrow>
          updateCartItemQuantity (c_id existingItem)
            (js_add (quantity existingItem) (num_or (ic_quantity ic) 1)) s
      | None \<Rightarrow>
          (let i = currentCartItemId s;
               item = \<lparr> c_id = i, userId = ic_userId ic, productId = ic_productId ic,
                        c_size = ic_size ic,
                        quantity = (case ic_quantity ic of
                                      Undefined \<Rightarrow> Undefined | Def n \<Rightarrow> Def (Num n)) \<rparr>
           in (Some item, s\<lparr> currentCartItemId := i + 1, cart := map_set i item (cart s) \<rparr>)))"

definition removeFromCart :: "int \<Rightarrow> storage \<Rightarrow> bool \<times> storage" where
  "removeFromCart i s = (map_has (cart s) i, s\<lparr> cart := map_delete i (cart s) \<rparr>)"

text \<open>The entries are copied first (\<open>Array.from\<close>), filtered, and each match is deleted
  by its key.\<close>

definition clearCart :: "int undef \<Rightarrow> storage \<Rightarrow> bool \<times> storage" where
  "clearCart uid s =
     (let matching = filter (\<lambda>e. owner_filter uid (snd e)) (cart s)
      in (True, s\<lparr> cart := foldl (\<lambda>c e. map_delete (fst e) c) (cart s) matching \<rparr>))"

subsection \<open>Construction\<close>

definition empty_storage :: storage where
  "empty_storage =
     \<lparr> users = [], products = [], cart = [], reviews = [],
       currentUserId = 1, currentProductId = 1, currentCartItemId = 1, currentReviewId = 1 \<rparr>"

definition seed_product :: insertProduct where
  "seed_product =
     \<lparr> ip_name = ''Flaze Heated Lunch Box'',
       ip_description =
         ''Premium heated lunch box with temperature control. Keep your meals warm anywhere you go.'',
       ip_price = ''59.99'', ip_image = [], ip_rating = ''5.0'', ip_reviewCount = Def 0,
       ip_badge = Def (NotNull ''New''), ip_sizes = [''S'', ''M'', ''L''],
       ip_featured = Def True \<rparr>"

definition seedProducts :: "storage \<Rightarrow> storage" where
  "seedProducts s = snd (createProduct seed_product s)"

text \<open>
  The constructor creates the admin user, registers the callback that makes it an admin,
  and seeds the product. The callback of the already resolved promise runs as soon as the
  constructor's caller has finished, before any request is served; \<open>new_MemStorage\<close> is
  the repository after it has run.
\<close>

definition constructor :: "user \<times> storage" where
  "constructor =
     (let (u, s1) = createUser \<lparr> iu_username = ''admin'', iu_password = ''admin123'' \<rparr>
                      empty_storage
      in (u, seedProducts s1))"

definition new_MemStorage :: storage where
  "new_MemStorage =
     (let (u, s) = constructor
      in s\<lparr> users := map_set (u_id u) (u\<lparr> isAdmin := True \<rparr>) (users s) \<rparr>)"

subsection \<open>Sequences of operations\<close>

datatype operation =
    CreateProduct insertProduct
  | UpdateProduct int updateData
  | CreateUser insertUser
  | CreateReview insertReview string
  | UpdateReview int bool
  | DeleteReview int
  | AddToCart insertCartItem
  | UpdateCartItemQuantity int int
  | RemoveFromCart int
  | ClearCart "int undef"

fun step :: "operation \<Rightarrow> storage \<Rightarrow> storage" where
  "step (CreateProduct ip) s = snd (createProduct ip s)"
| "step (UpdateProduct i d) s = snd (updateProduct i d s)"
| "step (CreateUser iu) s = snd (createUser iu s)"
| "step (CreateReview ir now) s = snd (createReview ir now s)"
| "step (UpdateReview i b) s = snd (updateReview i b s)"
| "step (DeleteReview i) s = snd (deleteReview i s)"
| "step (AddToCart ic) s = snd (addToCart ic s)"
| "step (UpdateCartItemQuantity i q) s = snd (updateCartItemQuantity i (Num q) s)"
| "step (RemoveFromCart i) s = snd (removeFromCart i s)"
| "step (ClearCart uid) s = snd (clearCart uid s)"

text \<open>The states that sequences of operations satisfying \<open>ok\<close> reach from the seeded
  repository.\<close>

inductive reachable_by :: "(operation \<Rightarrow> bool) \<Rightarrow> storage \<Rightarrow> bool"
  for ok :: "operation \<Rightarrow> bool" where
  start: "reachable_by ok new_MemStorage"
| after: "reachable_by ok s \<Longrightarrow> ok op \<Longrightarrow> reachable_by ok (step op s)"

definition reachable :: "storage \<Rightarrow> bool" where
  "reachable s = reachable_by (\<lambda>op. True) s"

section \<open>Invariants of the reachable states\<close>

text \<open>
  The keys of a map are distinct, every entity is stored under its own identifier, and
  the identifiers in use are below the counter that assigns the next one.
\<close>

definition keyed_below :: "('v \<Rightarrow> int) \<Rightarrow> int \<Rightarrow> (int, 'v) jsmap \<Rightarrow> bool" where
  "keyed_below idf n m =
     (distinct (map fst m) \<and> (\<forall>e \<in> set m. idf (snd e) = fst e \<and> fst e < n))"

definition cart_inv :: "storage \<Rightarrow> bool" where
  "cart_inv s = keyed_below c_id (currentCartItemId s) (cart s)"

definition reviews_inv :: "storage \<Rightarrow> bool" where
  "reviews_inv s = keyed_below r_id (currentReviewId s) (reviews s)"

text \<open>The seeded product stays the first product: products are never deleted.\<close>

definition products_inv :: "storage \<Rightarrow> bool" where
  "products_inv s =
     (keyed_below p_id (currentProductId s) (products s) \<and> products s \<noteq> [] \<and>
      fst (hd (products s)) = 1)"

text \<open>The seeded admin stays the first user and the only admin: \<open>createUser\<close> never
  sets the flag.\<close>

definition admin_user :: user where
  "admin_user = \<lparr> u_id = 1, username = ''admin'', password = ''admin123'', isAdmin = True \<rparr>"

definition users_inv :: "storage \<Rightarrow> bool" where
  "users_inv s =
     (1 < currentUserId s \<and>
      (\<exists>rest. users s = (1, admin_user) # rest \<and> (\<forall>e \<in> set rest. \<not> isAdmin (snd e))))"

section \<open>Notions used to state the properties\<close>

text \<open>The cart holds an item under key \<open>k\<close> whose owner is \<open>null\<close>.\<close>

definition null_owned :: "storage \<Rightarrow> int \<Rightarrow> bool" where
  "null_owned s k =
     (case map_get (cart s) k of None \<Rightarrow> False | Some item \<Rightarrow> userId item = Def Null)"

text \<open>
  The ratings of the approved reviews, their arithmetic mean, and the text that
  \<open>updateProductRatings\<close> computes from them.
\<close>

definition approvedRatings :: "storage \<Rightarrow> int list" where
  "approvedRatings s = map r_rating (filter approved (map_values (reviews s)))"

definition mean :: "int list \<Rightarrow> rat" where
  "mean rs = of_int (sum_list rs) / of_int (int (length rs))"

definition averageRating :: "int list \<Rightarrow> string" where
  "averageRating rs = toFixed1 (js_div (sum_list rs) (int (length rs)))"

text \<open>
  \<open>str\<close> is \<open>q\<close> rounded to one decimal place, for \<open>q \<ge> 0\<close>: the notation of a
  number of tenths nearest to \<open>q\<close>. The tenth below and the tenth above are both
  accepted when \<open>q\<close> is halfway between them.
\<close>

definition is_rounded_1dp :: "rat \<Rightarrow> string \<Rightarrow> bool" where
  "is_rounded_1dp q str =
     (let lo = \<lfloor>q * 10\<rfloor>
      in (str = show_tenths lo \<and> q * 10 - of_int lo \<le> 1 / 2) \<or>
         (str = show_tenths (lo + 1) \<and> of_int (lo + 1) - q * 10 \<le> 1 / 2))"

text \<open>A review operation that changes the reviews: a creation, or an update or a
  deletion of a review that exists.\<close>

definition review_mutation :: "storage \<Rightarrow> operation \<Rightarrow> bool" where
  "review_mutation s op =
     (case op of
        CreateReview ir now \<Rightarrow> True
      | UpdateReview i b \<Rightarrow> getReview s i \<noteq> None
      | DeleteReview i \<Rightarrow> getReview s i \<noteq> None
      | _ \<Rightarrow> False)"


text \<open>The first product agrees with the approved reviews: its review count is their
  number and, if there are any, its rating is their mean rounded to one decimal.\<close>

definition rating_consistent :: "storage \<Rightarrow> bool" where
  "rating_consistent s =
     (case first_elem (getAllProducts s) of
        None \<Rightarrow> False
      | Some p \<Rightarrow>
          p_reviewCount p = int (length (approvedRatings s)) \<and>
          (if approvedRatings s = [] then True
           else (case p_rating p of
                   Undefined \<Rightarrow> False
                 | Def str \<Rightarrow> is_rounded_1dp (mean (approvedRatings s)) str)))"

text \<open>The rating and the review count of the first product.\<close>

definition shown_rating :: "storage \<Rightarrow> (string undef \<times> int) option" where
  "shown_rating s =
     map_option (\<lambda>p. (p_rating p, p_reviewCount p)) (first_elem (getAllProducts s))"

section \<open>Properties of the map operations\<close>

lemma map_get_map_set:
  "map_get (map_set k v m) j = (if j = k then Some v else map_get m j)"
  by (induction m) (auto simp: map_get_def)

lemma keys_map_set:
  "fst ` set (map_set k v m) = insert k (fst ` set m)"
  by (induction m) auto

lemma map_has_map_set: "map_has (map_set k v m) j = (j = k \<or> map_has m j)"
  by (auto simp: map_has_def keys_map_set)

lemma distinct_map_set:
  "distinct (map fst m) \<Longrightarrow> distinct (map fst (map_set k v m))"
  by (induction m) (auto simp: keys_map_set)

lemma set_map_set:
  "set (map_set k v m) \<subseteq> insert (k, v) (set m)"
  by (induction m) auto

lemma map_set_nonempty: "map_set k v m \<noteq> []"
  by (cases m) auto

lemma hd_map_set:
  "m \<noteq> [] \<Longrightarrow> fst (hd (map_set k v m)) = fst (hd m)"
  by (cases m) auto

lemma map_has_iff_get: "map_has m k = (map_get m k \<noteq> None)"
  by (simp add: map_has_def map_get_def map_of_eq_None_iff)

lemma map_get_in_set: "map_get m k = Some v \<Longrightarrow> (k, v) \<in> set m"
  by (simp add: map_get_def map_of_SomeD)

lemma map_get_distinct: "distinct (map fst m) \<Longrightarrow> (k, v) \<in> set m \<Longrightarrow> map_get m k = Some v"
  by (simp add: map_get_def)

lemma map_delete_absent: "\<not> map_has m k \<Longrightarrow> map_delete k m = m"
  by (induction m) (auto simp: map_has_def map_delete_def)

lemma map_get_map_delete:
  "map_get (map_delete k m) j = (if j = k then None else map_get m j)"
  by (induction m) (auto simp: map_get_def map_delete_def)

lemma keys_map_delete: "fst ` set (map_delete k m) = fst ` set m - {k}"
  by (auto simp: map_delete_def)

lemma set_map_delete: "set (map_delete k m) \<subseteq> set m"
  by (auto simp: map_delete_def)

lemma distinct_map_delete:
  "distinct (map fst m) \<Longrightarrow> distinct (map fst (map_delete k m))"
  by (simp add: map_delete_def distinct_map_filter)

section \<open>What each operation leaves unchanged\<close>

lemma updateProduct_frame [simp]:
  "users (snd (updateProduct i d s)) = users s"
  "cart (snd (updateProduct i d s)) = cart s"
  "reviews (snd (updateProduct i d s)) = reviews s"
  "currentUserId (snd (updateProduct i d s)) = currentUserId s"
  "currentProductId (snd (updateProduct i d s)) = currentProductId s"
  "currentCartItemId (snd (updateProduct i d s)) = currentCartItemId s"
  "currentReviewId (snd (updateProduct i d s)) = currentReviewId s"
  by (simp_all add: updateProduct_def Let_def split: option.splits)

lemma updateProductRatings_frame [simp]:
  "users (updateProductRatings s) = users s"
  "cart (updateProductRatings s) = cart s"
  "reviews (updateProductRatings s) = reviews s"
  "currentUserId (updateProductRatings s) = currentUserId s"
  "currentProductId (updateProductRatings s) = currentProductId s"
  "currentCartItemId (updateProductRatings s) = currentCartItemId s"
  "currentReviewId (updateProductRatings s) = currentReviewId s"
  by (simp_all add: updateProductRatings_def Let_def split: option.splits)

lemma createProduct_frame [simp]:
  "users (snd (createProduct ip s)) = users s"
  "cart (snd (createProduct ip s)) = cart s"
  "reviews (snd (createProduct ip s)) = reviews s"
  "currentUserId (snd (createProduct ip s)) = currentUserId s"
  "currentCartItemId (snd (createProduct ip s)) = currentCartItemId s"
  "currentReviewId (snd (createProduct ip s)) = currentReviewId s"
  by (simp_all add: createProduct_def Let_def)

lemma createUser_frame [simp]:
  "products (snd (createUser iu s)) = products s"
  "cart (snd (createUser iu s)) = cart s"
  "reviews (snd (createUser iu s)) = reviews s"
  "currentProductId (snd (createUser iu s)) = currentProductId s"
  "currentCartItemId (snd (createUser iu s)) = currentCartItemId s"
  "currentReviewId (snd (createUser iu s)) = currentReviewId s"
  by (simp_all add: createUser_def Let_def)

lemma createReview_frame [simp]:
  "users (snd (createReview ir now s)) = users s"
  "cart (snd (createReview ir now s)) = cart s"
  "currentUserId (snd (createReview ir now s)) = currentUserId s"
  "currentProductId (snd (createReview ir now s)) = currentProductId s"
  "currentCartItemId (snd (createReview ir now s)) = currentCartItemId s"
  by (simp_all add: createReview_def Let_def)

lemma updateReview_frame [simp]:
  "users (snd (updateReview i b s)) = users s"
  "cart (snd (updateReview i b s)) = cart s"
  "currentUserId (snd (updateReview i b s)) = currentUserId s"
  "currentProductId (snd (updateReview i b s)) = currentProductId s"
  "currentCartItemId (snd (updateReview i b s)) = currentCartItemId s"
  "currentReviewId (snd (updateReview i b s)) = currentReviewId s"
  by (simp_all add: updateReview_def Let_def split: option.splits)

lemma deleteReview_frame [simp]:
  "users (snd (deleteReview i s)) = users s"
  "cart (snd (deleteReview i s)) = cart s"
  "currentUserId (snd (deleteReview i s)) = currentUserId s"
  "currentProductId (snd (deleteReview i s)) = currentProductId s"
  "currentCartItemId (snd (deleteReview i s)) = currentCartItemId s"
  "currentReviewId (snd (deleteReview i s)) = currentReviewId s"
  by (simp_all add: deleteReview_def Let_def)

lemma updateCartItemQuantity_frame [simp]:
  "users (snd (updateCartItemQuantity i q s)) = users s"
  "products (snd (updateCartItemQuantity i q s)) = products s"
  "reviews (snd (updateCartItemQuantity i q s)) = reviews s"
  "currentUserId (snd (updateCartItemQuantity i q s)) = currentUserId s"
  "currentProductId (snd (updateCartItemQuantity i q s)) = currentProductId s"
  "currentCartItemId (snd (updateCartItemQuantity i q s)) = currentCartItemId s"
  "currentReviewId (snd (updateCartItemQuantity i q s)) = currentReviewId s"
  by (simp_all add: updateCartItemQuantity_def Let_def split: option.splits)

lemma addToCart_frame [simp]:
  "users (snd (addToCart ic s)) = users s"
  "products (snd (addToCart ic s)) = products s"
  "reviews (snd (addToCart ic s)) = reviews s"
  "currentUserId (snd (addToCart ic s)) = currentUserId s"
  "currentProductId (snd (addToCart ic s)) = currentProductId s"
  "currentReviewId (snd (addToCart ic s)) = currentReviewId s"
  by (simp_all add: addToCart_def Let_def split: option.splits)

lemma removeFromCart_frame [simp]:
  "users (snd (removeFromCart i s)) = users s"
  "products (snd (removeFromCart i s)) = products s"
  "reviews (snd (removeFromCart i s)) = reviews s"
  "currentUserId (snd (removeFromCart i s)) = currentUserId s"
  "currentProductId (snd (removeFromCart i s)) = currentProductId s"
  "currentCartItemId (snd (removeFromCart i s)) = currentCartItemId s"
  "currentReviewId (snd (removeFromCart i s)) = currentReviewId s"
  by (simp_all add: removeFromCart_def)

lemma clearCart_frame [simp]:
  "users (snd (clearCart uid s)) = users s"
  "products (snd (clearCart uid s)) = products s"
  "reviews (snd (clearCart uid s)) = reviews s"
  "currentUserId (snd (clearCart uid s)) = currentUserId s"
  "currentProductId (snd (clearCart uid s)) = currentProductId s"
  "currentCartItemId (snd (clearCart uid s)) = currentCartItemId s"
  "currentReviewId (snd (clearCart uid s)) = currentReviewId s"
  by (simp_all add: clearCart_def Let_def)

section \<open>The invariants hold in every reachable state\<close>

lemma keyed_below_set_new:
  assumes "keyed_below idf n m" "idf v = n"
  shows "keyed_below idf (n + 1) (map_set n v m)"
proof -
  have "\<forall>e \<in> set (map_set n v m). idf (snd e) = fst e \<and> fst e < n + 1"
    using assms set_map_set [of n v m] by (fastforce simp: keyed_below_def)
  then show ?thesis
    using assms by (simp add: keyed_below_def distinct_map_set)
qed

lemma keyed_below_set_old:
  assumes "keyed_below idf n m" "map_has m k" "idf v = k"
  shows "keyed_below idf n (map_set k v m)"
proof -
  have "k < n"
    using assms by (auto simp: keyed_below_def map_has_def)
  then have "\<forall>e \<in> set (map_set k v m). idf (snd e) = fst e \<and> fst e < n"
    using assms set_map_set [of k v m] by (fastforce simp: keyed_below_def)
  then show ?thesis
    using assms by (simp add: keyed_below_def distinct_map_set)
qed

lemma keyed_below_delete:
  "keyed_below idf n m \<Longrightarrow> keyed_below idf n (map_delete k m)"
  using set_map_delete [of k m] by (auto simp: keyed_below_def distinct_map_delete)

lemma keyed_below_foldl_delete:
  "keyed_below idf n m \<Longrightarrow> keyed_below idf n (foldl (\<lambda>c e. map_delete (fst e) c) m es)"
  by (induction es arbitrary: m) (simp_all add: keyed_below_delete)

lemma keyed_below_fresh: "keyed_below idf n m \<Longrightarrow> \<not> map_has m n"
  by (auto simp: keyed_below_def map_has_def)

lemma find_values_key:
  assumes "keyed_below idf n m" "find P (map_values m) = Some v"
  shows "map_get m (idf v) = Some v"
proof -
  from assms(2) have "v \<in> set (map_values m)"
    by (auto simp: find_Some_iff)
  then obtain k where "(k, v) \<in> set m"
    by (auto simp: map_values_def)
  with assms(1) show ?thesis
    by (auto simp: keyed_below_def map_get_def)
qed

lemma cart_inv_updateCartItemQuantity:
  "cart_inv s \<Longrightarrow> cart_inv (snd (updateCartItemQuantity i q s))"
proof (cases "map_get (cart s) i")
  case None
  assume "cart_inv s"
  with None show ?thesis by (simp add: updateCartItemQuantity_def)
next
  case (Some item)
  assume inv: "cart_inv s"
  have "c_id item = i"
    using inv map_get_in_set [OF Some] by (fastforce simp: cart_inv_def keyed_below_def)
  moreover have "map_has (cart s) i"
    using Some by (simp add: map_has_iff_get)
  ultimately show ?thesis
    using inv Some keyed_below_set_old [of c_id "currentCartItemId s" "cart s" i "item\<lparr>quantity := Def q\<rparr>"]
    by (simp add: updateCartItemQuantity_def cart_inv_def Let_def)
qed

lemma cart_inv_addToCart: "cart_inv s \<Longrightarrow> cart_inv (snd (addToCart ic s))"
proof (cases "find (same_line ic) (map_values (cart s))")
  case None
  assume "cart_inv s"
  with None show ?thesis
    by (simp add: addToCart_def Let_def cart_inv_def keyed_below_set_new)
next
  case (Some existingItem)
  assume "cart_inv s"
  with Some show ?thesis
    by (simp add: addToCart_def cart_inv_updateCartItemQuantity)
qed

lemma cart_inv_step: "cart_inv s \<Longrightarrow> cart_inv (step op s)"
proof (cases op)
  case (AddToCart ic)
  assume "cart_inv s"
  with AddToCart show ?thesis by (simp add: cart_inv_addToCart)
next
  case (UpdateCartItemQuantity i q)
  assume "cart_inv s"
  with UpdateCartItemQuantity show ?thesis by (simp add: cart_inv_updateCartItemQuantity)
next
  case (RemoveFromCart i)
  assume "cart_inv s"
  with RemoveFromCart show ?thesis
    by (simp add: removeFromCart_def cart_inv_def keyed_below_delete)
next
  case (ClearCart uid)
  assume "cart_inv s"
  with ClearCart show ?thesis
    by (simp add: clearCart_def cart_inv_def keyed_below_foldl_delete)
qed (simp_all add: cart_inv_def)

lemma cart_inv_new: "cart_inv new_MemStorage"
  by (simp add: cart_inv_def keyed_below_def new_MemStorage_def constructor_def seedProducts_def
      createProduct_def createUser_def empty_storage_def Let_def)

lemma reachable_cart_inv: "reachable_by ok s \<Longrightarrow> cart_inv s"
  by (induction rule: reachable_by.induct) (simp_all add: cart_inv_new cart_inv_step)

lemma reviews_inv_step: "reviews_inv s \<Longrightarrow> reviews_inv (step op s)"
proof (cases op)
  case (CreateReview ir now)
  assume "reviews_inv s"
  with CreateReview show ?thesis
    by (simp add: createReview_def reviews_inv_def Let_def keyed_below_set_new)
next
  case (UpdateReview i b)
  assume inv: "reviews_inv s"
  show ?thesis
  proof (cases "map_get (reviews s) i")
    case None
    with inv UpdateReview show ?thesis by (simp add: updateReview_def)
  next
    case (Some r)
    have "r_id r = i"
      using inv map_get_in_set [OF Some] by (fastforce simp: reviews_inv_def keyed_below_def)
    moreover have "map_has (reviews s) i"
      using Some by (simp add: map_has_iff_get)
    ultimately show ?thesis
      using inv Some UpdateReview
        keyed_below_set_old [of r_id "currentReviewId s" "reviews s" i "r\<lparr>approved := b\<rparr>"]
      by (simp add: updateReview_def reviews_inv_def Let_def)
  qed
next
  case (DeleteReview i)
  assume "reviews_inv s"
  with DeleteReview show ?thesis
    by (simp add: deleteReview_def reviews_inv_def Let_def keyed_below_delete)
qed (simp_all add: reviews_inv_def)

lemma reviews_inv_new: "reviews_inv new_MemStorage"
  by (simp add: reviews_inv_def keyed_below_def new_MemStorage_def constructor_def seedProducts_def
      createProduct_def createUser_def empty_storage_def Let_def)

lemma reachable_reviews_inv: "reachable_by ok s \<Longrightarrow> reviews_inv s"
  by (induction rule: reachable_by.induct) (simp_all add: reviews_inv_new reviews_inv_step)

lemma merge_product_id [simp]: "p_id (merge_product p d) = p_id p"
  by (simp add: merge_product_def)

lemma products_inv_updateProduct:
  assumes "products_inv s"
  shows "products_inv (snd (updateProduct i d s))"
proof (cases "map_get (products s) i")
  case None
  with assms show ?thesis by (simp add: updateProduct_def)
next
  case (Some p)
  have "p_id p = i"
    using assms map_get_in_set [OF Some] by (fastforce simp: products_inv_def keyed_below_def)
  moreover have "map_has (products s) i"
    using Some by (simp add: map_has_iff_get)
  ultimately have "keyed_below p_id (currentProductId s) (map_set i (merge_product p d) (products s))"
    using assms by (simp add: products_inv_def keyed_below_set_old)
  with assms Some show ?thesis
    by (simp add: updateProduct_def Let_def products_inv_def map_set_nonempty hd_map_set)
qed

lemma products_inv_updateProductRatings:
  "products_inv s \<Longrightarrow> products_inv (updateProductRatings s)"
  by (simp add: updateProductRatings_def Let_def products_inv_updateProduct split: option.splits)

lemma products_inv_cong:
  "products_inv s \<Longrightarrow> products s' = products s \<Longrightarrow> currentProductId s' = currentProductId s
   \<Longrightarrow> products_inv s'"
  by (simp add: products_inv_def)

lemma products_inv_step: "products_inv s \<Longrightarrow> products_inv (step op s)"
proof (cases op)
  case (CreateProduct ip)
  assume "products_inv s"
  with CreateProduct show ?thesis
    by (simp add: createProduct_def Let_def products_inv_def keyed_below_set_new
        map_set_nonempty hd_map_set)
next
  case (UpdateProduct i d)
  assume "products_inv s"
  with UpdateProduct show ?thesis by (simp add: products_inv_updateProduct)
next
  case (CreateReview ir now)
  assume "products_inv s"
  with CreateReview show ?thesis
    by (auto simp: createReview_def Let_def
        intro!: products_inv_updateProductRatings products_inv_cong [of s])
next
  case (UpdateReview i b)
  assume "products_inv s"
  with UpdateReview show ?thesis
    by (auto simp: updateReview_def Let_def split: option.splits
        intro!: products_inv_updateProductRatings products_inv_cong [of s])
next
  case (DeleteReview i)
  assume "products_inv s"
  with DeleteReview show ?thesis
    by (auto simp: deleteReview_def Let_def
        intro!: products_inv_updateProductRatings products_inv_cong [of s])
qed (simp_all add: products_inv_def)

lemma products_inv_new: "products_inv new_MemStorage"
  by (simp add: products_inv_def keyed_below_def new_MemStorage_def constructor_def
      seedProducts_def createProduct_def createUser_def empty_storage_def Let_def)

lemma reachable_products_inv: "reachable_by ok s \<Longrightarrow> products_inv s"
  by (induction rule: reachable_by.induct) (simp_all add: products_inv_new products_inv_step)

lemma users_inv_createUser: 
  assumes "users_inv s"
  shows "users_inv (snd (createUser iu s))"
proof -
  from assms obtain rest where
    u: "users s = (1, admin_user) # rest" and r: "\<forall>e \<in> set rest. \<not> isAdmin (snd e)"
    and c: "1 < currentUserId s"
    by (auto simp: users_inv_def)
  let ?u = "\<lparr> u_id = currentUserId s, username = iu_username iu, password = iu_password iu,
              isAdmin = False \<rparr>"
  have "\<forall>e \<in> set (map_set (currentUserId s) ?u rest). \<not> isAdmin (snd e)"
    using r set_map_set [of "currentUserId s" ?u rest] by fastforce
  with u c show ?thesis
    by (simp add: users_inv_def createUser_def Let_def)
qed

lemma users_inv_step: "users_inv s \<Longrightarrow> users_inv (step op s)"
proof (cases op)
  case (CreateUser iu)
  assume "users_inv s"
  with CreateUser show ?thesis by (simp add: users_inv_createUser)
qed (simp_all add: users_inv_def)

lemma users_inv_new: "users_inv new_MemStorage"
  by (simp add: users_inv_def admin_user_def new_MemStorage_def constructor_def
      seedProducts_def createProduct_def createUser_def empty_storage_def Let_def)

lemma reachable_users_inv: "reachable_by ok s \<Longrightarrow> users_inv s"
  by (induction rule: reachable_by.induct) (simp_all add: users_inv_new users_inv_step)

lemma find_no_admin:
  "\<forall>e \<in> set rest. \<not> isAdmin (snd e) \<Longrightarrow> find P (map snd rest) = Some u \<Longrightarrow> \<not> isAdmin u"
  by (auto simp: find_Some_iff)

lemma users_inv_verifyAdmin:
  assumes "users_inv s"
  shows "verifyAdmin s n pw = (n = ''admin'' \<and> pw = ''admin123'')"
proof -
  from assms obtain rest where
    u: "users s = (1, admin_user) # rest" and r: "\<forall>e \<in> set rest. \<not> isAdmin (snd e)"
    by (auto simp: users_inv_def)
  show ?thesis
  proof (cases "n = ''admin''")
    case True
    with u show ?thesis
      by (auto simp: verifyAdmin_def getUserByUsername_def map_values_def admin_user_def)
  next
    case False
    with u find_no_admin [OF r] show ?thesis
      by (auto simp: verifyAdmin_def getUserByUsername_def map_values_def admin_user_def
          split: option.splits)
  qed
qed

lemma users_inv_admins:
  assumes "users_inv s"
  shows "(\<exists>u \<in> set (map_values (users s)). username u = n \<and> password u = pw \<and> isAdmin u)
         = (n = ''admin'' \<and> pw = ''admin123'')"
proof -
  from assms obtain rest where
    u: "users s = (1, admin_user) # rest" and r: "\<forall>e \<in> set rest. \<not> isAdmin (snd e)"
    by (auto simp: users_inv_def)
  then show ?thesis
    by (auto simp: map_values_def admin_user_def)
qed

section \<open>Cart items owned by \<open>null\<close>\<close>

lemma map_get_foldl_delete:
  "map_get (foldl (\<lambda>c e. map_delete (fst e) c) m es) k =
     (if k \<in> fst ` set es then None else map_get m k)"
  by (induction es arbitrary: m) (auto simp: map_get_map_delete)

lemma owner_filter_null: "userId item = Def Null \<Longrightarrow> \<not> owner_filter uid item"
  by (cases uid) (simp_all add: owner_filter_def)

lemma clearCart_keeps_null:
  assumes "distinct (map fst (cart s))" "map_get (cart s) k = Some item" "userId item = Def Null"
  shows "map_get (cart (snd (clearCart uid s))) k = Some item"
proof -
  have "k \<notin> fst ` set (filter (\<lambda>e. owner_filter uid (snd e)) (cart s))"
  proof
    assume "k \<in> fst ` set (filter (\<lambda>e. owner_filter uid (snd e)) (cart s))"
    then obtain v where v: "(k, v) \<in> set (cart s)" "owner_filter uid v"
      by auto
    from assms(1) v(1) have "map_get (cart s) k = Some v"
      by (rule map_get_distinct)
    with assms(2) have "v = item" by simp
    with v(2) assms(3) show False
      by (simp add: owner_filter_null)
  qed
  with assms(2) show ?thesis
    by (simp add: clearCart_def Let_def map_get_foldl_delete)
qed

lemma null_owned_updateCartItemQuantity:
  "null_owned s k \<Longrightarrow> null_owned (snd (updateCartItemQuantity i q s)) k"
  by (auto simp: null_owned_def updateCartItemQuantity_def Let_def map_get_map_set
      split: option.splits)

lemma null_owned_addToCart:
  assumes "cart_inv s" "null_owned s k"
  shows "null_owned (snd (addToCart ic s)) k"
proof (cases "find (same_line ic) (map_values (cart s))")
  case None
  from assms(2) have "map_has (cart s) k"
    by (auto simp: null_owned_def map_has_iff_get split: option.splits)
  with assms(1) have "k \<noteq> currentCartItemId s"
    using keyed_below_fresh [of c_id "currentCartItemId s" "cart s"] by (auto simp: cart_inv_def)
  with None assms(2) show ?thesis
    by (simp add: addToCart_def Let_def null_owned_def map_get_map_set)
next
  case (Some existingItem)
  with assms(2) show ?thesis
    by (simp add: addToCart_def null_owned_updateCartItemQuantity)
qed

lemma null_owned_step:
  assumes "cart_inv s" "null_owned s k" "op \<noteq> RemoveFromCart k"
  shows "null_owned (step op s) k"
proof (cases op)
  case (AddToCart ic)
  with assms show ?thesis by (simp add: null_owned_addToCart)
next
  case (UpdateCartItemQuantity i q)
  with assms show ?thesis by (simp add: null_owned_updateCartItemQuantity)
next
  case (RemoveFromCart i)
  with assms show ?thesis
    by (simp add: removeFromCart_def null_owned_def map_get_map_delete)
next
  case (ClearCart uid)
  from assms(2) obtain item where "map_get (cart s) k = Some item" "userId item = Def Null"
    by (cases "map_get (cart s) k") (simp_all add: null_owned_def)
  moreover from assms(1) have "distinct (map fst (cart s))"
    by (simp add: cart_inv_def keyed_below_def)
  ultimately have "map_get (cart (snd (clearCart uid s))) k = Some item \<and> userId item = Def Null"
    by (simp add: clearCart_keeps_null)
  with ClearCart show ?thesis
    by (simp add: null_owned_def)
qed (use assms in \<open>simp_all add: null_owned_def\<close>)

section \<open>The quotient of two integers and its rounding to one decimal\<close>








section \<open>Recomputation of the rating\<close>

text \<open>Two means that lie halfway between two tenths and are no binary64 numbers: the
  quotient is rounded down for \<open>29 / 20\<close> and up for \<open>69 / 20\<close>.\<close>

lemma averageRating_halfway:
  "toFixed1 (js_div 29 20) = ''1.4'' \<and> toFixed1 (js_div 69 20) = ''3.5'' \<and>
   toFixed1 (js_div 19 4) = ''4.8''"
  by code_simp

lemma foldl_rating_sum:
  "foldl (\<lambda>sum review. sum + r_rating review) a xs = a + sum_list (map r_rating xs)"
  by (induction xs arbitrary: a) simp_all


lemma merge_rating_update [simp]:
  "p_rating (merge_product p (rating_update a n)) = Def a"
  "p_reviewCount (merge_product p (rating_update a n)) = n"
  by (simp_all add: merge_product_def rating_update_def no_update_def)

lemma updateProductRatings_some:
  assumes "products_inv s" "approvedRatings s \<noteq> []"
  shows "\<exists>p rest. products s = (1, p) # rest \<and>
           products (updateProductRatings s) =
             (1, merge_product p (rating_update (averageRating (approvedRatings s))
                                    (int (length (approvedRatings s))))) # rest"
proof -
  from assms(1) obtain k p rest where ps: "products s = (k, p) # rest"
    by (cases "products s") (auto simp: products_inv_def)
  with assms(1) have k: "k = 1" and id: "p_id p = 1"
    by (auto simp: products_inv_def keyed_below_def)
  from assms(2) have ne: "filter approved (map_values (reviews s)) \<noteq> []"
    by (simp add: approvedRatings_def)
  have "products (updateProductRatings s) =
          (1, merge_product p (rating_update (averageRating (approvedRatings s))
                                 (int (length (approvedRatings s))))) # rest"
    using ps k id ne
    by (simp add: updateProductRatings_def Let_def map_values_def updateProduct_def map_get_def
        averageRating_def approvedRatings_def foldl_rating_sum)
  with ps k show ?thesis by simp
qed

lemma review_mutation_step:
  assumes "review_mutation s op"
  shows "\<exists>s1. step op s = updateProductRatings s1 \<and> products s1 = products s \<and>
              currentProductId s1 = currentProductId s"
proof (cases op)
  case (CreateReview ir now)
  then show ?thesis
    by (simp add: createReview_def Let_def) (rule exI, rule conjI, rule refl, simp)
next
  case (UpdateReview i b)
  with assms obtain r where "map_get (reviews s) i = Some r"
    by (auto simp: review_mutation_def getReview_def)
  with UpdateReview show ?thesis
    by (simp add: updateReview_def Let_def) (rule exI, rule conjI, rule refl, simp)
next
  case (DeleteReview i)
  with assms have "map_has (reviews s) i"
    by (simp add: review_mutation_def getReview_def map_has_iff_get)
  with DeleteReview show ?thesis
    by (simp add: deleteReview_def Let_def) (rule exI, rule conjI, rule refl, simp)
qed (use assms in \<open>simp_all add: review_mutation_def\<close>)

lemma approvedRatings_updateProductRatings [simp]:
  "approvedRatings (updateProductRatings s) = approvedRatings s"
  by (simp add: approvedRatings_def)

section \<open>Which operations change the rating\<close>

lemma shown_rating_cons:
  "products s = (k, p) # rest \<Longrightarrow> shown_rating s = Some (p_rating p, p_reviewCount p)"
  by (simp add: shown_rating_def getAllProducts_def map_values_def)







lemma step_sets_rating:
  assumes "products_inv s" "review_mutation s op" "approvedRatings (step op s) \<noteq> []"
  shows "shown_rating (step op s) =
           Some (Def (averageRating (approvedRatings (step op s))),
                 int (length (approvedRatings (step op s))))"
proof -
  from review_mutation_step [OF assms(2)] obtain s1 where
    s1: "step op s = updateProductRatings s1" "products s1 = products s"
        "currentProductId s1 = currentProductId s"
    by blast
  from assms(1) s1(2,3) have inv1: "products_inv s1"
    by (rule products_inv_cong)
  from assms(3) have ne: "approvedRatings s1 \<noteq> []"
    by (simp add: s1(1))
  from updateProductRatings_some [OF inv1 ne] obtain p rest where
    "products (updateProductRatings s1) =
       (1, merge_product p (rating_update (averageRating (approvedRatings s1))
                              (int (length (approvedRatings s1))))) # rest"
    by blast
  then show ?thesis
    by (simp add: s1(1) shown_rating_cons)
qed



lemma map_set_mem: "(k, v) \<in> set (map_set k v m)"
  by (induction m) auto

lemma str_or_empty:
  "str_or c [] = (case c of Def (NotNull t) \<Rightarrow> t | _ \<Rightarrow> [])"
  by (cases "(c, [] :: string)" rule: str_or.cases) simp_all

section \<open>What \<open>updateProduct\<close> keeps\<close>

text \<open>
  A property that is absent from the update keeps its value, and so do \<open>reviewCount\<close>,
  \<open>badge\<close> and \<open>featured\<close> when they are present and \<open>undefined\<close>; \<open>badge: null\<close>
  clears the badge. A missing identifier changes nothing.
\<close>

lemma updateProduct_missing:
  "getProduct s i = None \<Longrightarrow> updateProduct i d s = (None, s)"
  by (simp add: updateProduct_def getProduct_def)

lemma updateProduct_existing:
  assumes "getProduct s i = Some p"
  shows "fst (updateProduct i d s) = Some (merge_product p d) \<and>
         getProduct (snd (updateProduct i d s)) i = Some (merge_product p d) \<and>
         (\<forall>j. j \<noteq> i \<longrightarrow> getProduct (snd (updateProduct i d s)) j = getProduct s j)"
  using assms by (simp add: updateProduct_def getProduct_def Let_def map_get_map_set)

lemma merge_product_absent:
  "ud_name d = Absent \<Longrightarrow> p_name (merge_product p d) = p_name p"
  "ud_description d = Absent \<Longrightarrow> p_description (merge_product p d) = p_description p"
  "ud_price d = Absent \<Longrightarrow> p_price (merge_product p d) = p_price p"
  "ud_image d = Absent \<Longrightarrow> p_image (merge_product p d) = p_image p"
  "ud_rating d = Absent \<Longrightarrow> p_rating (merge_product p d) = p_rating p"
  "ud_sizes d = Absent \<Longrightarrow> p_sizes (merge_product p d) = p_sizes p"
  "read_prop (ud_reviewCount d) = Undefined \<Longrightarrow>
     p_reviewCount (merge_product p d) = p_reviewCount p"
  "read_prop (ud_badge d) = Undefined \<Longrightarrow> p_badge (merge_product p d) = p_badge p"
  "read_prop (ud_featured d) = Undefined \<Longrightarrow> p_featured (merge_product p d) = p_featured p"
  "ud_badge d = Present (Def Null) \<Longrightarrow> p_badge (merge_product p d) = Null"
  by (simp_all add: merge_product_def)

section \<open>Cart scopes\<close>

text \<open>
  Without a user id the scope is the items whose owner is \<open>undefined\<close>; for a user id
  other than \<open>0\<close> it is the items of that owner, and the two scopes are disjoint. The
  user id \<open>0\<close> selects the scope of no user id.
\<close>

lemma getCartItems_Undefined:
  "getCartItems Undefined s = filter (\<lambda>item. userId item = Undefined) (map_values (cart s))"
  by (simp add: getCartItems_def owner_filter_def [abs_def])

lemma getCartItems_nonzero:
  "u \<noteq> 0 \<Longrightarrow>
     getCartItems (Def u) s =
       filter (\<lambda>item. userId item = Def (NotNull u)) (map_values (cart s))"
  by (simp add: getCartItems_def owner_filter_def [abs_def])

lemma getCartItems_disjoint:
  "u \<noteq> 0 \<Longrightarrow> set (getCartItems Undefined s) \<inter> set (getCartItems (Def u) s) = {}"
  by (auto simp: getCartItems_Undefined getCartItems_nonzero)

lemma getCartItems_zero: "getCartItems (Def 0) s = getCartItems Undefined s"
  by (simp add: getCartItems_def owner_filter_def [abs_def])

text \<open>\<open>clearCart\<close> removes exactly the items of its scope and reports success.\<close>

lemma foldl_map_delete:
  "foldl (\<lambda>c e. map_delete (fst e) c) m es = filter (\<lambda>e. fst e \<notin> fst ` set es) m"
proof (induction es arbitrary: m)
  case Nil
  then show ?case by simp
next
  case (Cons e es)
  have "filter (\<lambda>x. fst x \<notin> fst ` set es) (map_delete (fst e) m) =
        filter (\<lambda>x. fst x \<notin> fst ` set (e # es)) m"
    by (auto simp: map_delete_def intro: filter_cong)
  with Cons show ?case by simp
qed

lemma clearCart_removes_scope:
  assumes "distinct (map fst (cart s))"
  shows "cart (snd (clearCart uid s)) = filter (\<lambda>e. \<not> owner_filter uid (snd e)) (cart s)"
proof -
  have "fst e \<in> fst ` set (filter (\<lambda>e. owner_filter uid (snd e)) (cart s))
          \<longleftrightarrow> owner_filter uid (snd e)" if "e \<in> set (cart s)" for e
  proof
    assume "fst e \<in> fst ` set (filter (\<lambda>e. owner_filter uid (snd e)) (cart s))"
    then obtain e' where e': "e' \<in> set (cart s)" "owner_filter uid (snd e')" "fst e' = fst e"
      by auto
    from assms that e'(1,3) have "e' = e"
      by (metis eq_key_imp_eq_value prod.collapse)
    with e'(2) show "owner_filter uid (snd e)" by simp
  next
    assume "owner_filter uid (snd e)"
    with that show "fst e \<in> fst ` set (filter (\<lambda>e. owner_filter uid (snd e)) (cart s))"
      by auto
  qed
  then show ?thesis
    by (simp add: clearCart_def Let_def foldl_map_delete cong: filter_cong)
qed

lemma clearCart_result: "fst (clearCart uid s) \<and> (snd (clearCart uid s))\<lparr> cart := cart s \<rparr> = s"
  by (simp add: clearCart_def Let_def)

section \<open>Adding to the cart\<close>

text \<open>
  Without a matching item a new one is appended under the counter's value, which is not
  in use, with the quantity as given (\<open>undefined\<close> when it was omitted). A matching item
  with a numeric quantity is incremented by a requested quantity other than \<open>0\<close>, and no
  item is created.
\<close>

lemma addToCart_creates:
  assumes "cart_inv s" "find (same_line ic) (map_values (cart s)) = None"
  shows "\<not> map_has (cart s) (currentCartItemId s) \<and>
         cart (snd (addToCart ic s)) =
           cart s @ [(currentCartItemId s,
                      \<lparr> c_id = currentCartItemId s, userId = ic_userId ic,
                        productId = ic_productId ic, c_size = ic_size ic,
                        quantity = (case ic_quantity ic of
                                      Undefined \<Rightarrow> Undefined | Def n \<Rightarrow> Def (Num n)) \<rparr>)]"
proof -
  have fresh: "\<not> map_has (cart s) (currentCartItemId s)"
    using assms(1) keyed_below_fresh by (auto simp: cart_inv_def)
  have "map_set k v m = m @ [(k, v)]" if "\<not> map_has m k" for k :: int and v :: cartItem and m
    using that by (induction m) (auto simp: map_has_def)
  with fresh assms(2) show ?thesis
    by (simp add: addToCart_def Let_def)
qed

lemma addToCart_merges:
  assumes "cart_inv s" "find (same_line ic) (map_values (cart s)) = Some existing"
    "quantity existing = Def (Num a)" "ic_quantity ic = Def q" "q \<noteq> 0"
  shows "map fst (cart (snd (addToCart ic s))) = map fst (cart s) \<and>
         map_get (cart (snd (addToCart ic s))) (c_id existing) =
           Some (existing\<lparr> quantity := Def (Num (a + q)) \<rparr>) \<and>
         (\<forall>j. j \<noteq> c_id existing \<longrightarrow>
            map_get (cart (snd (addToCart ic s))) j = map_get (cart s) j) \<and>
         currentCartItemId (snd (addToCart ic s)) = currentCartItemId s"
proof -
  from assms(1,2) have g: "map_get (cart s) (c_id existing) = Some existing"
    unfolding cart_inv_def by (rule find_values_key)
  have keys: "map fst (map_set k v m) = map fst m" if "map_has m k"
    for k :: int and v :: cartItem and m
    using that by (induction m) (auto simp: map_has_def)
  have "map_has (cart s) (c_id existing)"
    using g by (simp add: map_has_iff_get)
  with g assms(2-5) show ?thesis
    by (simp add: addToCart_def updateCartItemQuantity_def Let_def map_get_map_set keys)
qed

section \<open>Administrator check\<close>

text \<open>
  C7. \<open>verifyAdmin\<close> returns true exactly when the lookup by username finds a user
  whose stored password equals the given one and whose \<open>isAdmin\<close> flag is set. In
  every reachable state this is the same as the existence of some user with that
  username, that password and the flag; in the seeded repository it holds for
  \<open>("admin", "admin123")\<close> and for no other pair.
\<close>

theorem verifyAdmin_spec:
  "verifyAdmin s n pw =
     (\<exists>u. getUserByUsername s n = Some u \<and> password u = pw \<and> isAdmin u) \<and>
   (reachable s \<longrightarrow>
      verifyAdmin s n pw =
        (\<exists>u \<in> set (map_values (users s)). username u = n \<and> password u = pw \<and> isAdmin u)) \<and>
   verifyAdmin new_MemStorage n pw = (n = ''admin'' \<and> pw = ''admin123'')"
proof (intro conjI impI)
  show "verifyAdmin s n pw =
     (\<exists>u. getUserByUsername s n = Some u \<and> password u = pw \<and> isAdmin u)"
    by (simp add: verifyAdmin_def split: option.splits)
next
  assume "reachable s"
  then have "users_inv s"
    by (simp add: reachable_def reachable_users_inv)
  then show "verifyAdmin s n pw =
        (\<exists>u \<in> set (map_values (users s)). username u = n \<and> password u = pw \<and> isAdmin u)"
    by (simp only: users_inv_verifyAdmin users_inv_admins)
next
  show "verifyAdmin new_MemStorage n pw = (n = ''admin'' \<and> pw = ''admin123'')"
    by (rule users_inv_verifyAdmin [OF users_inv_new])
qed

theorem verifyAdmin_spec_witness:
  "reachable (step (CreateUser \<lparr> iu_username = ''admin'', iu_password = ''x'' \<rparr>) new_MemStorage) \<and>
   verifyAdmin (step (CreateUser \<lparr> iu_username = ''admin'', iu_password = ''x'' \<rparr>) new_MemStorage)
     ''admin'' ''admin123'' \<and>
   (\<exists>u \<in> set (map_values (users
        (step (CreateUser \<lparr> iu_username = ''admin'', iu_password = ''x'' \<rparr>) new_MemStorage))).
      username u = ''admin'' \<and> password u = ''admin123'' \<and> isAdmin u) \<and>
   \<not> verifyAdmin new_MemStorage ''admin'' ''admin''"
proof -
  let ?s = "step (CreateUser \<lparr> iu_username = ''admin'', iu_password = ''x'' \<rparr>) new_MemStorage"
  have r: "reachable ?s"
    unfolding reachable_def by (rule reachable_by.after [OF reachable_by.start]) simp
  have v: "verifyAdmin ?s ''admin'' ''admin123''"
    by code_simp
  have e: "\<exists>u \<in> set (map_values (users ?s)).
             username u = ''admin'' \<and> password u = ''admin123'' \<and> isAdmin u"
    using verifyAdmin_spec [of ?s "''admin''" "''admin123''"] r v by blast
  have "verifyAdmin new_MemStorage ''admin'' ''admin'' =
          (''admin'' = ''admin'' \<and> ''admin'' = ''admin123'')"
    using verifyAdmin_spec [of new_MemStorage "''admin''" "''admin''"] by blast
  then have n: "\<not> verifyAdmin new_MemStorage ''admin'' ''admin''"
    by simp
  from r v e n show ?thesis by blast
qed

section \<open>Deleting a review\<close>

text \<open>
  C9. \<open>deleteReview\<close> returns true exactly when a review with the identifier exists.
  Then the review is removed, every other review stays, and the ratings are recomputed
  on the repository without it. Otherwise it returns false and the repository is
  unchanged.
\<close>

theorem deleteReview_spec:
  "fst (deleteReview i s) = (getReview s i \<noteq> None) \<and>
   (getReview s i \<noteq> None \<longrightarrow>
      getReview (snd (deleteReview i s)) i = None \<and>
      (\<forall>j. j \<noteq> i \<longrightarrow> getReview (snd (deleteReview i s)) j = getReview s j) \<and>
      snd (deleteReview i s) = updateProductRatings (s\<lparr> reviews := map_delete i (reviews s) \<rparr>)) \<and>
   (getReview s i = None \<longrightarrow> snd (deleteReview i s) = s)"
  by (simp add: deleteReview_def getReview_def Let_def map_has_iff_get map_get_map_delete
      map_delete_absent)

theorem deleteReview_spec_witness:
  "getReview (step (CreateReview \<lparr> ir_name = ''a'', ir_rating = 4, ir_comment = Undefined \<rparr> ''t'')
       new_MemStorage) 1 \<noteq> None \<and>
   fst (deleteReview 1
     (step (CreateReview \<lparr> ir_name = ''a'', ir_rating = 4, ir_comment = Undefined \<rparr> ''t'')
       new_MemStorage)) \<and>
   getReview (snd (deleteReview 1
     (step (CreateReview \<lparr> ir_name = ''a'', ir_rating = 4, ir_comment = Undefined \<rparr> ''t'')
       new_MemStorage))) 1 = None \<and>
   getReview new_MemStorage 1 = None \<and>
   \<not> fst (deleteReview 1 new_MemStorage) \<and>
   snd (deleteReview 1 new_MemStorage) = new_MemStorage"
proof -
  let ?s = "step (CreateReview \<lparr> ir_name = ''a'', ir_rating = 4, ir_comment = Undefined \<rparr> ''t'')
              new_MemStorage"
  have a: "getReview ?s 1 \<noteq> None"
    by code_simp
  have b: "getReview new_MemStorage 1 = None"
    by code_simp
  note present = deleteReview_spec [of 1 ?s]
  note missing = deleteReview_spec [of 1 new_MemStorage]
  have c: "fst (deleteReview 1 ?s)"
    using present a by blast
  have d: "getReview (snd (deleteReview 1 ?s)) 1 = None"
    using present a by blast
  have e: "\<not> fst (deleteReview 1 new_MemStorage)"
    using missing b by blast
  have f: "snd (deleteReview 1 new_MemStorage) = new_MemStorage"
    using missing b by blast
  from a b c d e f show ?thesis by blast
qed

section \<open>A cart item whose owner is \<open>null\<close>\<close>

text \<open>
  C10. In a reachable state, a cart item stored with owner \<open>null\<close> is returned by
  \<open>getCartItems\<close> neither without a user id nor for any user id, and \<open>clearCart\<close>
  keeps it, without a user id and for any user id. Every operation other than
  \<open>removeFromCart\<close> on its key leaves an item with owner \<open>null\<close> under that key, and
  \<open>removeFromCart\<close> on its key removes it.
\<close>

theorem null_owner_invisible:
  assumes "reachable s" "map_get (cart s) k = Some item" "userId item = Def Null"
  shows "item \<notin> set (getCartItems Undefined s) \<and>
         (\<forall>u. item \<notin> set (getCartItems (Def u) s)) \<and>
         map_get (cart (snd (clearCart Undefined s))) k = Some item \<and>
         (\<forall>u. map_get (cart (snd (clearCart (Def u) s))) k = Some item) \<and>
         (\<forall>op. op \<noteq> RemoveFromCart k \<longrightarrow> null_owned (step op s) k) \<and>
         fst (removeFromCart k s) \<and> map_get (cart (step (RemoveFromCart k) s)) k = None"
proof -
  from assms(1) have inv: "cart_inv s"
    by (simp add: reachable_def reachable_cart_inv)
  then have d: "distinct (map fst (cart s))"
    by (simp add: cart_inv_def keyed_below_def)
  from assms(2,3) have n: "null_owned s k"
    by (simp add: null_owned_def)
  have a: "item \<notin> set (getCartItems uid s)" for uid
    using assms(3) by (auto simp: getCartItems_def dest: owner_filter_null)
  have b: "map_get (cart (snd (clearCart uid s))) k = Some item" for uid
    using d assms(2,3) by (rule clearCart_keeps_null)
  have c: "op \<noteq> RemoveFromCart k \<longrightarrow> null_owned (step op s) k" for op
    using inv n by (simp add: null_owned_step)
  have e: "fst (removeFromCart k s)"
    using assms(2) by (simp add: removeFromCart_def map_has_iff_get)
  have f: "map_get (cart (step (RemoveFromCart k) s)) k = None"
    by (simp add: removeFromCart_def map_get_map_delete)
  show ?thesis
    by (intro conjI allI) (rule a b c e f)+
qed

theorem null_owner_invisible_witness:
  "reachable (step (AddToCart \<lparr> ic_userId = Def Null, ic_productId = 1, ic_size = ''M'',
                               ic_quantity = Def 1 \<rparr>) new_MemStorage) \<and>
   map_get (cart (step (AddToCart \<lparr> ic_userId = Def Null, ic_productId = 1, ic_size = ''M'',
                                   ic_quantity = Def 1 \<rparr>) new_MemStorage)) 1 =
     Some \<lparr> c_id = 1, userId = Def Null, productId = 1, c_size = ''M'',
            quantity = Def (Num 1) \<rparr> \<and>
   \<lparr> c_id = 1, userId = Def Null, productId = 1, c_size = ''M'', quantity = Def (Num 1) \<rparr>
     \<notin> set (getCartItems Undefined
         (step (AddToCart \<lparr> ic_userId = Def Null, ic_productId = 1, ic_size = ''M'',
                            ic_quantity = Def 1 \<rparr>) new_MemStorage)) \<and>
   map_get (cart (snd (clearCart Undefined
       (step (AddToCart \<lparr> ic_userId = Def Null, ic_productId = 1, ic_size = ''M'',
                          ic_quantity = Def 1 \<rparr>) new_MemStorage)))) 1 =
     Some \<lparr> c_id = 1, userId = Def Null, productId = 1, c_size = ''M'',
            quantity = Def (Num 1) \<rparr> \<and>
   null_owned
     (step (AddToCart \<lparr> ic_userId = Def Null, ic_productId = 1, ic_size = ''M'',
                        ic_quantity = Def 1 \<rparr>)
        (step (AddToCart \<lparr> ic_userId = Def Null, ic_productId = 1, ic_size = ''M'',
                           ic_quantity = Def 1 \<rparr>) new_MemStorage)) 1"
proof -
  let ?s = "step (AddToCart \<lparr> ic_userId = Def Null, ic_productId = 1, ic_size = ''M'',
                              ic_quantity = Def 1 \<rparr>) new_MemStorage"
  let ?item = "\<lparr> c_id = 1, userId = Def Null, productId = 1, c_size = ''M'',
                 quantity = Def (Num 1) \<rparr>"
  have r: "reachable ?s"
    unfolding reachable_def by (rule reachable_by.after [OF reachable_by.start]) simp
  have g: "map_get (cart ?s) 1 = Some ?item"
    by code_simp
  have n: "userId ?item = Def Null"
    by simp
  note inst = null_owner_invisible [OF r g n]
  have a: "?item \<notin> set (getCartItems Undefined ?s)"
    using inst by blast
  have b: "map_get (cart (snd (clearCart Undefined ?s))) 1 = Some ?item"
    using inst by blast
  let ?op = "AddToCart \<lparr> ic_userId = Def Null, ic_productId = 1, ic_size = ''M'',
                         ic_quantity = Def 1 \<rparr>"
  have "?op \<noteq> RemoveFromCart 1"
    by simp
  with inst have c: "null_owned (step ?op ?s) 1"
    by blast
  from r g a b c show ?thesis by blast
qed

section \<open>The rating after a review changes\<close>



section \<open>Consistency of the rating with the approved reviews\<close>




text \<open>It also fails after an \<open>updateProduct\<close> call that supplies a review count.\<close>

lemma rating_overwritten_example:
  "reachable
     (step (UpdateProduct 1 (no_update\<lparr> ud_reviewCount := Present (Def 7) \<rparr>)) new_MemStorage) \<and>
   \<not> rating_consistent
     (step (UpdateProduct 1 (no_update\<lparr> ud_reviewCount := Present (Def 7) \<rparr>)) new_MemStorage)"
proof
  show "reachable
     (step (UpdateProduct 1 (no_update\<lparr> ud_reviewCount := Present (Def 7) \<rparr>)) new_MemStorage)"
    unfolding reachable_def
    by (intro reachable_by.after reachable_by.start) simp_all
  show "\<not> rating_consistent
     (step (UpdateProduct 1 (no_update\<lparr> ud_reviewCount := Present (Def 7) \<rparr>)) new_MemStorage)"
    by code_simp
qed

section \<open>Creating a review\<close>

text \<open>
  C8. In a reachable state \<open>createReview\<close> returns a review whose identifier is the
  counter's value, under which no review was stored, and increments the counter. The
  review carries the given name and rating, the given comment or the empty string when
  the comment is \<open>undefined\<close> or \<open>null\<close>, \<open>approved = true\<close> and the time stamp. It is
  stored under its identifier and the other reviews stay. The ratings are recomputed on
  the repository that contains it: afterwards some review is approved and the first
  product shows the recomputed rating and count.
\<close>

theorem createReview_spec:
  assumes "reachable s"
  shows "r_id (fst (createReview ir now s)) = currentReviewId s \<and>
         getReview s (currentReviewId s) = None \<and>
         getReview (snd (createReview ir now s)) (currentReviewId s) =
           Some (fst (createReview ir now s)) \<and>
         (\<forall>j. j \<noteq> currentReviewId s \<longrightarrow>
            getReview (snd (createReview ir now s)) j = getReview s j) \<and>
         currentReviewId (snd (createReview ir now s)) = currentReviewId s + 1 \<and>
         r_name (fst (createReview ir now s)) = ir_name ir \<and>
         r_rating (fst (createReview ir now s)) = ir_rating ir \<and>
         comment (fst (createReview ir now s)) =
           (case ir_comment ir of Def (NotNull t) \<Rightarrow> t | _ \<Rightarrow> []) \<and>
         approved (fst (createReview ir now s)) \<and>
         createdAt (fst (createReview ir now s)) = now \<and>
         snd (createReview ir now s) =
           updateProductRatings
             (s\<lparr> currentReviewId := currentReviewId s + 1,
                 reviews := map_set (currentReviewId s) (fst (createReview ir now s)) (reviews s) \<rparr>) \<and>
         approvedRatings (snd (createReview ir now s)) \<noteq> [] \<and>
         shown_rating (snd (createReview ir now s)) =
           Some (Def (averageRating (approvedRatings (snd (createReview ir now s)))),
                 int (length (approvedRatings (snd (createReview ir now s)))))"
proof -
  let ?r = "fst (createReview ir now s)" and ?s' = "snd (createReview ir now s)"
  from assms have rinv: "reviews_inv s" and pinv: "products_inv s"
    by (simp_all add: reachable_def reachable_reviews_inv reachable_products_inv)
  have fresh: "getReview s (currentReviewId s) = None"
    using keyed_below_fresh [of r_id "currentReviewId s" "reviews s"] rinv
    by (simp add: reviews_inv_def getReview_def map_has_iff_get)
  have fields: "r_id ?r = currentReviewId s" "r_name ?r = ir_name ir"
    "r_rating ?r = ir_rating ir" "approved ?r" "createdAt ?r = now"
    "comment ?r = (case ir_comment ir of Def (NotNull t) \<Rightarrow> t | _ \<Rightarrow> [])"
    by (simp_all add: createReview_def Let_def str_or_empty)
  have st: "?s' = updateProductRatings
             (s\<lparr> currentReviewId := currentReviewId s + 1,
                 reviews := map_set (currentReviewId s) ?r (reviews s) \<rparr>)"
    by (simp add: createReview_def Let_def)
  have rv: "reviews ?s' = map_set (currentReviewId s) ?r (reviews s)"
    by (subst st) simp
  have stored: "getReview ?s' (currentReviewId s) = Some ?r"
    by (simp add: getReview_def rv map_get_map_set)
  have others: "\<forall>j. j \<noteq> currentReviewId s \<longrightarrow> getReview ?s' j = getReview s j"
    by (simp add: getReview_def rv map_get_map_set)
  have counter: "currentReviewId ?s' = currentReviewId s + 1"
    by (subst st) simp
  have "?r \<in> set (filter approved (map_values (reviews ?s')))"
    using map_set_mem [of "currentReviewId s" ?r "reviews s"] fields(4)
    by (force simp: rv map_values_def)
  then have "filter approved (map_values (reviews ?s')) \<noteq> []"
    by (rule contrapos_pn) simp
  then have ne: "approvedRatings ?s' \<noteq> []"
    by (simp add: approvedRatings_def)
  have "review_mutation s (CreateReview ir now)"
    by (simp add: review_mutation_def)
  from step_sets_rating [OF pinv this] ne
  have shown: "shown_rating ?s' =
           Some (Def (averageRating (approvedRatings ?s')), int (length (approvedRatings ?s')))"
    by simp
  from fresh fields st stored others counter ne shown show ?thesis
    by (intro conjI)
qed

theorem createReview_spec_witness:
  "reachable new_MemStorage \<and>
   r_id (fst (createReview \<lparr> ir_name = ''a'', ir_rating = 4, ir_comment = Undefined \<rparr> ''t''
                new_MemStorage)) = 1 \<and>
   getReview new_MemStorage 1 = None \<and>
   getReview (snd (createReview \<lparr> ir_name = ''a'', ir_rating = 4, ir_comment = Undefined \<rparr> ''t''
                     new_MemStorage)) 1 =
     Some (fst (createReview \<lparr> ir_name = ''a'', ir_rating = 4, ir_comment = Undefined \<rparr> ''t''
                  new_MemStorage)) \<and>
   comment (fst (createReview \<lparr> ir_name = ''a'', ir_rating = 4, ir_comment = Undefined \<rparr> ''t''
                   new_MemStorage)) = [] \<and>
   approved (fst (createReview \<lparr> ir_name = ''a'', ir_rating = 4, ir_comment = Undefined \<rparr> ''t''
                    new_MemStorage))"
proof -
  let ?ir = "\<lparr> ir_name = ''a'', ir_rating = 4, ir_comment = Undefined \<rparr>"
  have r: "reachable new_MemStorage"
    unfolding reachable_def by (rule reachable_by.start)
  have c: "currentReviewId new_MemStorage = 1"
    by code_simp
  note inst = createReview_spec [OF r, of ?ir "''t''", unfolded c]
  have a: "r_id (fst (createReview ?ir ''t'' new_MemStorage)) = 1"
    using inst by blast
  have b: "getReview new_MemStorage 1 = None"
    using inst by blast
  have d: "getReview (snd (createReview ?ir ''t'' new_MemStorage)) 1 =
             Some (fst (createReview ?ir ''t'' new_MemStorage))"
    using inst by blast
  have "comment (fst (createReview ?ir ''t'' new_MemStorage)) =
          (case ir_comment ?ir of Def (NotNull t) \<Rightarrow> t | _ \<Rightarrow> [])"
    using inst by blast
  then have e: "comment (fst (createReview ?ir ''t'' new_MemStorage)) = []"
    by simp
  have f: "approved (fst (createReview ?ir ''t'' new_MemStorage))"
    using inst by blast
  from r a b d e f show ?thesis by blast
qed

section \<open>Updating a product with a property that is \<open>undefined\<close>\<close>

text \<open>
  C3. The seeded product has the name \<open>"Flaze Heated Lunch Box"\<close>. The call
  \<open>updateProduct(1, { name: undefined })\<close> returns, and stores, a product whose name
  is \<open>undefined\<close>: the spread copies the property, and only \<open>reviewCount\<close>, \<open>badge\<close>
  and \<open>featured\<close> fall back to the prior value.
\<close>

theorem updateProduct_explicit_undefined:
  "map_option p_name (getProduct new_MemStorage 1) = Some (Def ''Flaze Heated Lunch Box'') \<and>
   map_option p_name
     (fst (updateProduct 1 (no_update\<lparr> ud_name := Present Undefined \<rparr>) new_MemStorage)) =
     Some Undefined \<and>
   map_option p_name
     (getProduct
        (snd (updateProduct 1 (no_update\<lparr> ud_name := Present Undefined \<rparr>) new_MemStorage)) 1) =
     Some Undefined"
  by code_simp

section \<open>Adding to the cart without a quantity, or with quantity \<open>0\<close>\<close>

text \<open>
  C4. Two calls of \<open>addToCart\<close> with the same product, size and owner and no quantity
  leave one cart item, whose quantity is \<open>NaN\<close>: the first call stores the item without
  a quantity and the second adds \<open>1\<close> to \<open>undefined\<close>. A call with quantity \<open>0\<close> on
  an item of quantity \<open>2\<close> gives quantity \<open>3\<close>.
\<close>

theorem addToCart_default_quantity:
  "map_values (cart
     (step (AddToCart \<lparr> ic_userId = Undefined, ic_productId = 1, ic_size = ''M'',
                        ic_quantity = Undefined \<rparr>)
        (step (AddToCart \<lparr> ic_userId = Undefined, ic_productId = 1, ic_size = ''M'',
                           ic_quantity = Undefined \<rparr>) new_MemStorage))) =
     [\<lparr> c_id = 1, userId = Undefined, productId = 1, c_size = ''M'', quantity = Def NaN \<rparr>] \<and>
   map_values (cart
     (step (AddToCart \<lparr> ic_userId = Undefined, ic_productId = 1, ic_size = ''M'',
                        ic_quantity = Def 0 \<rparr>)
        (step (AddToCart \<lparr> ic_userId = Undefined, ic_productId = 1, ic_size = ''M'',
                           ic_quantity = Def 2 \<rparr>) new_MemStorage))) =
     [\<lparr> c_id = 1, userId = Undefined, productId = 1, c_size = ''M'', quantity = Def (Num 3) \<rparr>]"
  by code_simp

section \<open>Listing the cart of user \<open>0\<close>\<close>

text \<open>
  C5. With one cart item without owner and one owned by user \<open>0\<close>, \<open>getCartItems(0)\<close>
  returns the item without owner and not the item of user \<open>0\<close>; it returns the same
  list as \<open>getCartItems()\<close>.
\<close>

theorem getCartItems_zero_user:
  "map userId (map_values (cart
     (step (AddToCart \<lparr> ic_userId = Def (NotNull 0), ic_productId = 1, ic_size = ''M'',
                        ic_quantity = Def 1 \<rparr>)
        (step (AddToCart \<lparr> ic_userId = Undefined, ic_productId = 1, ic_size = ''M'',
                           ic_quantity = Def 1 \<rparr>) new_MemStorage)))) =
     [Undefined, Def (NotNull 0)] \<and>
   map userId (getCartItems (Def 0)
     (step (AddToCart \<lparr> ic_userId = Def (NotNull 0), ic_productId = 1, ic_size = ''M'',
                        ic_quantity = Def 1 \<rparr>)
        (step (AddToCart \<lparr> ic_userId = Undefined, ic_productId = 1, ic_size = ''M'',
                           ic_quantity = Def 1 \<rparr>) new_MemStorage))) = [Undefined] \<and>
   getCartItems (Def 0)
     (step (AddToCart \<lparr> ic_userId = Def (NotNull 0), ic_productId = 1, ic_size = ''M'',
                        ic_quantity = Def 1 \<rparr>)
        (step (AddToCart \<lparr> ic_userId = Undefined, ic_productId = 1, ic_size = ''M'',
                           ic_quantity = Def 1 \<rparr>) new_MemStorage)) =
   getCartItems Undefined
     (step (AddToCart \<lparr> ic_userId = Def (NotNull 0), ic_productId = 1, ic_size = ''M'',
                        ic_quantity = Def 1 \<rparr>)
        (step (AddToCart \<lparr> ic_userId = Undefined, ic_productId = 1, ic_size = ''M'',
                           ic_quantity = Def 1 \<rparr>) new_MemStorage))"
  by code_simp

section \<open>Clearing the cart of user \<open>0\<close>\<close>

text \<open>
  C6. With one cart item without owner and one owned by user \<open>0\<close>, \<open>clearCart(0)\<close>
  removes the item without owner and keeps the item of user \<open>0\<close>.
\<close>

theorem clearCart_zero_user:
  "map userId (map_values (cart
     (step (AddToCart \<lparr> ic_userId = Def (NotNull 0), ic_productId = 1, ic_size = ''M'',
                        ic_quantity = Def 1 \<rparr>)
        (step (AddToCart \<lparr> ic_userId = Undefined, ic_productId = 1, ic_size = ''M'',
                           ic_quantity = Def 1 \<rparr>) new_MemStorage)))) =
     [Undefined, Def (NotNull 0)] \<and>
   map userId (map_values (cart (snd (clearCart (Def 0)
     (step (AddToCart \<lparr> ic_userId = Def (NotNull 0), ic_productId = 1, ic_size = ''M'',
                        ic_quantity = Def 1 \<rparr>)
        (step (AddToCart \<lparr> ic_userId = Undefined, ic_productId = 1, ic_size = ''M'',
                           ic_quantity = Def 1 \<rparr>) new_MemStorage)))))) =
     [Def (NotNull 0)]"
  by code_simp

end
